theory Spec2Isabelle
  imports Main "HOL-Library.Word"
begin

section \<open>rviz: \<open>MessageFilterDisplay\<close> (src/rviz/message_filter_display.h)\<close>

text \<open>
  The header defines one class template, \<open>MessageFilterDisplay<MessageType>\<close>, on top of
  \<open>_RosTopicDisplay\<close>. Its methods only read and write the members of the object and call
  collaborators: the \<open>message_filters::Subscriber\<close> member \<open>sub_\<close>, the
  \<open>tf2_ros::MessageFilter\<close> behind the pointer \<open>tf_filter_\<close>, the \<open>Display\<close> base class
  (\<open>isEnabled\<close>, \<open>setStatus\<close>, \<open>Display::reset\<close>), the display context (\<open>queueRender\<close>) and
  the handler \<open>processMessage\<close> of the concrete subclass.

  The embedding is a record of the members plus the list of collaborator calls made so far, in
  order. A method is a function from the object before the call to the object after it.
  Member names drop the trailing underscore of the source (\<open>sub_\<close> is \<open>sub\<close>,
  \<open>tf_filter_\<close> is \<open>tf_filter\<close>, \<open>messages_received_\<close> is \<open>messages_received\<close>,
  \<open>fixed_frame_\<close> is \<open>fixed_frame\<close>), which Isabelle does not accept in a name.
\<close>

subsection \<open>Data\<close>

text \<open>\<open>ros::TransportHints().reliable()\<close> and \<open>ros::TransportHints().unreliable()\<close>.\<close>

datatype transport = Reliable | Unreliable

text \<open>\<open>StatusProperty::Level\<close>.\<close>

datatype level = Ok | Warn | Error

text \<open>
  The calls a method makes on its collaborators, with their arguments. \<open>'m\<close> is the
  message type of the template; a \<open>MessageType::ConstPtr\<close> is an \<open>'m option\<close>, the null
  pointer being \<open>None\<close>.
\<close>

datatype 'm call =
    Topic_setMessageType string             \<comment> \<open>\<open>topic_property_->setMessageType(type)\<close>\<close>
  | Topic_setDescription string             \<comment> \<open>\<open>topic_property_->setDescription(text)\<close>\<close>
  | Sub_subscribe string nat transport      \<comment> \<open>\<open>sub_.subscribe(update_nh_, topic, queue, hint)\<close>\<close>
  | Sub_unsubscribe                         \<comment> \<open>\<open>sub_.unsubscribe()\<close>\<close>
  | Filter_new string nat                   \<comment> \<open>\<open>new tf2_ros::MessageFilter(buffer, frame, queue, nh)\<close>\<close>
  | Filter_connectInput                     \<comment> \<open>\<open>tf_filter_->connectInput(sub_)\<close>\<close>
  | Filter_registerCallback                 \<comment> \<open>\<open>tf_filter_->registerCallback(incomingMessage)\<close>\<close>
  | FrameManager_registerFilter             \<comment> \<open>\<open>registerFilterForTransformStatusCheck\<close>\<close>
  | Filter_setTargetFrame string            \<comment> \<open>\<open>tf_filter_->setTargetFrame(frame)\<close>\<close>
  | Filter_clear                            \<comment> \<open>\<open>tf_filter_->clear()\<close>\<close>
  | Filter_delete                           \<comment> \<open>\<open>delete tf_filter_\<close>\<close>
  | Display_reset                           \<comment> \<open>\<open>Display::reset()\<close>\<close>
  | SetStatus level string string           \<comment> \<open>\<open>setStatus(level, name, text)\<close>\<close>
  | ProcessMessage 'm                       \<comment> \<open>\<open>processMessage(msg)\<close>, the subclass's handler\<close>
  | QueueRender                             \<comment> \<open>\<open>context_->queueRender()\<close>\<close>

text \<open>
  The filter object behind \<open>tf_filter_\<close>: the target frame and queue size it was given, and
  the messages it holds back until their transform is known. \<open>clear()\<close> empties the buffer.
\<close>

record 'm message_filter =
  target_frame :: string
  queue_size :: nat
  buffered :: "'m list"

text \<open>
  The object. \<open>enabled\<close> is what \<open>isEnabled()\<close> returns, \<open>topic\<close> what
  \<open>topic_property_->getTopicStd()\<close> returns, \<open>unreliable\<close> what
  \<open>unreliable_property_->getBool()\<close> returns. \<open>sub\<close> is the subscription the member
  \<open>sub_\<close> has been asked to hold: \<open>Some (topic, hint)\<close> after a \<open>subscribe\<close> call that
  returned, \<open>None\<close> after \<open>unsubscribe\<close> and in a fresh object. \<open>tf_filter\<close> is the
  pointer \<open>tf_filter_\<close>, \<open>None\<close> being \<open>NULL\<close>. \<open>messages_received\<close> is a
  \<open>uint32_t\<close>.
\<close>

record 'm display =
  enabled :: bool
  topic :: string
  unreliable :: bool
  fixed_frame :: string
  sub :: "(string \<times> transport) option"
  tf_filter :: "'m message_filter option"
  messages_received :: "32 word"
  calls :: "'m call list"

text \<open>
  A method either returns, with the object as it then is (\<open>Inr\<close>), or is left early
  (\<open>Inl\<close>): by a \<open>ros::Exception\<close> carrying its \<open>what()\<close> text, or by dereferencing
  \<open>tf_filter_\<close> while it is \<open>NULL\<close>.
\<close>

datatype abort = RosException string | NullDereference

type_synonym 'm res = "(abort \<times> 'm display) + 'm display"

definition and_then :: "'m res \<Rightarrow> ('m display \<Rightarrow> 'm res) \<Rightarrow> 'm res" where
  "and_then r f = (case r of Inl e \<Rightarrow> Inl e | Inr s \<Rightarrow> f s)"

definition called :: "'m call \<Rightarrow> 'm display \<Rightarrow> 'm display" where
  "called c s = s\<lparr>calls := calls s @ [c]\<rparr>"

subsection \<open>Collaborators\<close>

text \<open>
  \<open>QString::number\<close> of an unsigned value: its decimal digits.
\<close>

function number :: "nat \<Rightarrow> string" where
  "number n =
     (if n < 10 then [char_of (48 + n)]
      else number (n div 10) @ [char_of (48 + n mod 10)])"
  by pat_completeness auto
termination
  by (relation "measure id") auto

declare number.simps [simp del]

text \<open>
  \<open>setStatus\<close> of the base class: the model records the call.
\<close>

definition setStatus :: "level \<Rightarrow> string \<Rightarrow> string \<Rightarrow> 'm display \<Rightarrow> 'm display" where
  "setStatus l name text s = called (SetStatus l name text) s"

text \<open>
  \<open>sub_.subscribe(nh, topic, queue, hint)\<close>. Whether the node handle accepts the
  subscription is not decided by this class: the first argument says what happens,
  \<open>None\<close> for a call that returns and \<open>Some what\<close> for one that throws a
  \<open>ros::Exception\<close> with that text. The subscriber drops the subscription it held before
  it opens the new one.
\<close>

definition sub_subscribe ::
  "string option \<Rightarrow> string \<Rightarrow> nat \<Rightarrow> transport \<Rightarrow> 'm display \<Rightarrow> 'm res" where
  "sub_subscribe outcome t q h s =
     (let s1 = called (Sub_subscribe t q h) (s\<lparr>sub := None\<rparr>)
      in case outcome of
           None \<Rightarrow> Inr (s1\<lparr>sub := Some (t, h)\<rparr>)
         | Some what \<Rightarrow> Inl (RosException what, s1))"

definition sub_unsubscribe :: "'m display \<Rightarrow> 'm display" where
  "sub_unsubscribe s = called Sub_unsubscribe (s\<lparr>sub := None\<rparr>)"

subsection \<open>The methods of \<open>MessageFilterDisplay\<close>\<close>

text \<open>
  The constructors of \<open>_RosTopicDisplay\<close> and \<open>MessageFilterDisplay\<close>: the topic property
  starts empty, the reliability property \<open>false\<close>, \<open>tf_filter_\<close> is \<open>NULL\<close>,
  \<open>messages_received_\<close> is 0 and \<open>sub_\<close> is default-constructed; the body gives the
  topic property the name of the message type
  (\<open>ros::message_traits::datatype<MessageType>()\<close>) and a description. The enabled flag
  and the fixed frame belong to the base class; they and the name of the message type are
  parameters.
\<close>

definition MessageFilterDisplay :: "bool \<Rightarrow> string \<Rightarrow> string \<Rightarrow> 'm display" where
  "MessageFilterDisplay en frame message_type =
     \<lparr>enabled = en, topic = [], unreliable = False, fixed_frame = frame,
      sub = None, tf_filter = None, messages_received = 0,
      calls = [Topic_setMessageType message_type,
               Topic_setDescription (message_type @ '' topic to subscribe to.'')]\<rparr>"

definition onInitialize :: "'m display \<Rightarrow> 'm display" where
  "onInitialize s =
     (let s1 = called (Filter_new (fixed_frame s) 10)
                 (s\<lparr>tf_filter := Some \<lparr>target_frame = fixed_frame s, queue_size = 10,
                                        buffered = []\<rparr>\<rparr>);
          s2 = called Filter_connectInput s1;
          s3 = called Filter_registerCallback s2
      in called FrameManager_registerFilter s3)"

definition unsubscribe :: "'m display \<Rightarrow> 'm display" where
  "unsubscribe s = sub_unsubscribe s"

text \<open>The destructor: \<open>unsubscribe(); delete tf_filter_;\<close> (deleting \<open>NULL\<close> does nothing).\<close>

definition destroy :: "'m display \<Rightarrow> 'm display" where
  "destroy s =
     (let s1 = unsubscribe s
      in case tf_filter s1 of
           None \<Rightarrow> s1
         | Some f \<Rightarrow> called Filter_delete (s1\<lparr>tf_filter := None\<rparr>))"

definition reset :: "'m display \<Rightarrow> 'm res" where
  "reset s =
     (let s1 = called Display_reset s
      in case tf_filter s1 of
           None \<Rightarrow> Inl (NullDereference, s1)
         | Some f \<Rightarrow>
             Inr ((called Filter_clear (s1\<lparr>tf_filter := Some (f\<lparr>buffered := []\<rparr>)\<rparr>))
                    \<lparr>messages_received := 0\<rparr>))"

definition transport_hint :: "'m display \<Rightarrow> transport" where
  "transport_hint s = (if unreliable s then Unreliable else Reliable)"

text \<open>
  \<open>subscribe\<close>: the early return when the display is not enabled, then the \<open>try\<close> block;
  the \<open>catch\<close> clause takes a \<open>ros::Exception\<close> and nothing else.
\<close>

definition subscribe :: "string option \<Rightarrow> 'm display \<Rightarrow> 'm res" where
  "subscribe outcome s =
     (if \<not> enabled s then Inr s
      else case sub_subscribe outcome (topic s) 10 (transport_hint s) s of
             Inr s1 \<Rightarrow> Inr (setStatus Ok ''Topic'' ''OK'' s1)
           | Inl (RosException what, s1) \<Rightarrow>
               Inr (setStatus Error ''Topic'' (''Error subscribing: '' @ what) s1)
           | Inl (e, s1) \<Rightarrow> Inl (e, s1))"

definition updateTopic :: "string option \<Rightarrow> 'm display \<Rightarrow> 'm res" where
  "updateTopic outcome s =
     and_then (reset (unsubscribe s)) (\<lambda>s1.
     and_then (subscribe outcome s1) (\<lambda>s2.
     Inr (called QueueRender s2)))"

text \<open>
  The constructor of \<open>_RosTopicDisplay\<close> creates the topic property and the reliability
  property with \<open>SLOT( updateTopic() )\<close>: a write that changes the value a property holds
  runs \<open>updateTopic\<close> on the object with the new value in place; a write of the value it
  already holds changes nothing and runs nothing. \<open>topic_property_setString\<close> is
  \<open>topic_property_->setString(t)\<close>, \<open>unreliable_property_setBool\<close> the write of the
  reliability property. The \<open>string option\<close> is the outcome of the \<open>sub_.subscribe\<close>
  call that \<open>updateTopic\<close> may make.
\<close>

definition topic_property_setString :: "string option \<Rightarrow> string \<Rightarrow> 'm display \<Rightarrow> 'm res" where
  "topic_property_setString outcome t s =
     (if t = topic s then Inr s else updateTopic outcome (s\<lparr>topic := t\<rparr>))"

definition unreliable_property_setBool :: "string option \<Rightarrow> bool \<Rightarrow> 'm display \<Rightarrow> 'm res" where
  "unreliable_property_setBool outcome b s =
     (if b = unreliable s then Inr s else updateTopic outcome (s\<lparr>unreliable := b\<rparr>))"

text \<open>
  \<open>setTopic\<close> writes the topic property, and so runs \<open>updateTopic\<close> when the topic is a
  new one; the second argument is not used.
\<close>

definition setTopic :: "string option \<Rightarrow> string \<Rightarrow> string \<Rightarrow> 'm display \<Rightarrow> 'm res" where
  "setTopic outcome t dtype s = topic_property_setString outcome t s"

definition onEnable :: "string option \<Rightarrow> 'm display \<Rightarrow> 'm res" where
  "onEnable outcome s = subscribe outcome s"

definition onDisable :: "'m display \<Rightarrow> 'm res" where
  "onDisable s = reset (unsubscribe s)"

definition fixedFrameChanged :: "'m display \<Rightarrow> 'm res" where
  "fixedFrameChanged s =
     (case tf_filter s of
        None \<Rightarrow> Inl (NullDereference, s)
      | Some f \<Rightarrow>
          reset (called (Filter_setTargetFrame (fixed_frame s))
                   (s\<lparr>tf_filter := Some (f\<lparr>target_frame := fixed_frame s\<rparr>)\<rparr>)))"

text \<open>
  \<open>incomingMessage\<close>: the null check, \<open>++messages_received_\<close> on a \<open>uint32_t\<close>, the status
  line built from the new count, and the call of the handler.
\<close>

definition incomingMessage :: "'m option \<Rightarrow> 'm display \<Rightarrow> 'm display" where
  "incomingMessage msg s =
     (case msg of
        None \<Rightarrow> s
      | Some m \<Rightarrow>
          (let s1 = s\<lparr>messages_received := messages_received s + 1\<rparr>;
               s2 = setStatus Ok ''Topic''
                      (number (unat (messages_received s1)) @ '' messages received'') s1
           in called (ProcessMessage m) s2))"

subsection \<open>Reading the call list\<close>

text \<open>The calls made on the subscriber \<open>sub_\<close>, in order.\<close>

fun is_sub_call :: "'m call \<Rightarrow> bool" where
  "is_sub_call (Sub_subscribe t q h) = True"
| "is_sub_call Sub_unsubscribe = True"
| "is_sub_call _ = False"

definition sub_calls :: "'m call list \<Rightarrow> 'm call list" where
  "sub_calls cs = filter is_sub_call cs"

text \<open>The messages handed to \<open>processMessage\<close>, in order.\<close>

definition handled :: "'m call list \<Rightarrow> 'm list" where
  "handled cs = concat (map (\<lambda>c. case c of ProcessMessage m \<Rightarrow> [m] | _ \<Rightarrow> []) cs)"

subsection \<open>Sequences of calls on one object\<close>

text \<open>
  What the host can do to an initialised object before it destroys it: call one of the
  methods, write one of the two properties (\<open>SetTopic\<close>, \<open>SetUnreliable\<close>, which run
  \<open>updateTopic\<close> through the slot when the value is new), or change one of the values of
  the base class that the methods read (\<open>SetEnabled\<close> for what \<open>isEnabled()\<close> returns,
  \<open>SetFixedFrame\<close> for \<open>fixed_frame_\<close>). Enabling a display is \<open>SetEnabled True\<close>
  followed by \<open>OnEnable\<close>, a change of frame \<open>SetFixedFrame\<close> followed by
  \<open>FixedFrameChanged\<close>. The \<open>string option\<close> of a step that may subscribe is the
  outcome of \<open>sub_.subscribe\<close>.
\<close>

datatype 'm hook =
    OnEnable "string option"
  | OnDisable
  | UpdateTopic "string option"
  | FixedFrameChanged
  | IncomingMessage "'m option"
  | Reset
  | Subscribe "string option"
  | Unsubscribe
  | SetTopic string string "string option"
  | SetUnreliable bool "string option"
  | SetEnabled bool
  | SetFixedFrame string

fun invoke :: "'m hook \<Rightarrow> 'm display \<Rightarrow> 'm res" where
  "invoke (OnEnable outcome) s = onEnable outcome s"
| "invoke OnDisable s = onDisable s"
| "invoke (UpdateTopic outcome) s = updateTopic outcome s"
| "invoke FixedFrameChanged s = fixedFrameChanged s"
| "invoke (IncomingMessage msg) s = Inr (incomingMessage msg s)"
| "invoke Reset s = reset s"
| "invoke (Subscribe outcome) s = subscribe outcome s"
| "invoke Unsubscribe s = Inr (unsubscribe s)"
| "invoke (SetTopic t dtype outcome) s = setTopic outcome t dtype s"
| "invoke (SetUnreliable b outcome) s = unreliable_property_setBool outcome b s"
| "invoke (SetEnabled b) s = Inr (s\<lparr>enabled := b\<rparr>)"
| "invoke (SetFixedFrame frame) s = Inr (s\<lparr>fixed_frame := frame\<rparr>)"

fun run :: "'m hook list \<Rightarrow> 'm display \<Rightarrow> 'm res" where
  "run [] s = Inr s"
| "run (h # hs) s = and_then (invoke h s) (run hs)"

text \<open>
  The steps that can run \<open>reset()\<close>: the methods whose body calls it, and the two
  property writes, which run \<open>updateTopic\<close>.
\<close>

fun resets :: "'m hook \<Rightarrow> bool" where
  "resets OnDisable = True"
| "resets (UpdateTopic outcome) = True"
| "resets FixedFrameChanged = True"
| "resets Reset = True"
| "resets (SetTopic t dtype outcome) = True"
| "resets (SetUnreliable b outcome) = True"
| "resets _ = False"

text \<open>The number of deliveries of a non-null message in a sequence of steps.\<close>

fun deliveries :: "'m hook list \<Rightarrow> nat" where
  "deliveries [] = 0"
| "deliveries (IncomingMessage (Some m) # hs) = Suc (deliveries hs)"
| "deliveries (h # hs) = deliveries hs"

text \<open>
  The property "filter and subscription are both active or both torn down": the filter
  exists exactly when a subscription is held.
\<close>

definition both_or_neither :: "'m display \<Rightarrow> bool" where
  "both_or_neither s = ((tf_filter s \<noteq> None) = (sub s \<noteq> None))"

subsection \<open>Two objects used in the examples\<close>

text \<open>
  An enabled display on the topic \<open>/scan\<close> with fixed frame \<open>map\<close>, constructed and
  initialised but not yet subscribed; and the same display in the middle of its work, with a
  subscription held, two messages waiting in the filter and seven messages delivered.
\<close>

definition scan_display :: "nat display" where
  "scan_display =
     (onInitialize (MessageFilterDisplay True ''map'' ''sensor_msgs/LaserScan''))
       \<lparr>topic := ''/scan''\<rparr>"

definition busy_display :: "nat display" where
  "busy_display =
     scan_display\<lparr>sub := Some (''/scan'', Reliable),
                  tf_filter := Some \<lparr>target_frame = ''map'', queue_size = 10,
                                     buffered = [3, 4]\<rparr>,
                  messages_received := 7\<rparr>"

section \<open>Basic facts about the methods\<close>

lemma sub_calls_append: "sub_calls (xs @ ys) = sub_calls xs @ sub_calls ys"
  by (simp add: sub_calls_def)

lemma sub_calls_simps:
  "sub_calls [] = []"
  "sub_calls (c # cs) = (if is_sub_call c then c # sub_calls cs else sub_calls cs)"
  by (simp_all add: sub_calls_def)

lemma handled_append: "handled (xs @ ys) = handled xs @ handled ys"
  by (simp add: handled_def)

lemma unsubscribe_fields:
  "calls (unsubscribe s) = calls s @ [Sub_unsubscribe]"
  "sub (unsubscribe s) = None"
  "tf_filter (unsubscribe s) = tf_filter s"
  "messages_received (unsubscribe s) = messages_received s"
  "enabled (unsubscribe s) = enabled s"
  "topic (unsubscribe s) = topic s"
  "unreliable (unsubscribe s) = unreliable s"
  "fixed_frame (unsubscribe s) = fixed_frame s"
  by (simp_all add: unsubscribe_def sub_unsubscribe_def called_def)

lemma reset_Some:
  "tf_filter s = Some f \<Longrightarrow>
   reset s = Inr (s\<lparr>tf_filter := Some (f\<lparr>buffered := []\<rparr>), messages_received := 0,
                    calls := calls s @ [Display_reset, Filter_clear]\<rparr>)"
  by (simp add: reset_def called_def Let_def)

lemma reset_None:
  "tf_filter s = None \<Longrightarrow> reset s = Inl (NullDereference, called Display_reset s)"
  by (simp add: reset_def called_def Let_def)

lemma subscribe_disabled: "\<not> enabled s \<Longrightarrow> subscribe outcome s = Inr s"
  by (simp add: subscribe_def)

lemma subscribe_ok:
  "enabled s \<Longrightarrow>
   subscribe None s =
     Inr (s\<lparr>sub := Some (topic s, transport_hint s),
            calls := calls s @ [Sub_subscribe (topic s) 10 (transport_hint s),
                                SetStatus Ok ''Topic'' ''OK'']\<rparr>)"
  by (simp add: subscribe_def sub_subscribe_def setStatus_def called_def Let_def)

lemma subscribe_throws:
  "enabled s \<Longrightarrow>
   subscribe (Some what) s =
     Inr (s\<lparr>sub := None,
            calls := calls s @ [Sub_subscribe (topic s) 10 (transport_hint s),
                                SetStatus Error ''Topic'' (''Error subscribing: '' @ what)]\<rparr>)"
  by (simp add: subscribe_def sub_subscribe_def setStatus_def called_def Let_def)

lemma subscribe_returns:
  "\<exists>s'. subscribe outcome s = Inr s' \<and> tf_filter s' = tf_filter s
        \<and> messages_received s' = messages_received s"
  by (cases "enabled s"; cases outcome)
     (simp_all add: subscribe_disabled subscribe_ok subscribe_throws)

lemma onInitialize_fields:
  "tf_filter (onInitialize s) =
     Some \<lparr>target_frame = fixed_frame s, queue_size = 10, buffered = []\<rparr>"
  "sub (onInitialize s) = sub s"
  by (simp_all add: onInitialize_def called_def Let_def)

lemma destroy_fields: "tf_filter (destroy s) = None" "sub (destroy s) = None"
  by (simp_all add: destroy_def Let_def unsubscribe_fields called_def split: option.split)

lemma scan_display_fields:
  "enabled scan_display"
  "topic scan_display = ''/scan''"
  "unreliable scan_display = False"
  "fixed_frame scan_display = ''map''"
  "sub scan_display = None"
  "tf_filter scan_display = Some \<lparr>target_frame = ''map'', queue_size = 10, buffered = []\<rparr>"
  "messages_received scan_display = 0"
  "calls scan_display =
     [Topic_setMessageType ''sensor_msgs/LaserScan'',
      Topic_setDescription ''sensor_msgs/LaserScan topic to subscribe to.'',
      Filter_new ''map'' 10, Filter_connectInput, Filter_registerCallback,
      FrameManager_registerFilter]"
  by (simp_all add: scan_display_def onInitialize_def called_def Let_def
                    MessageFilterDisplay_def)

section \<open>Delivery of a message\<close>

text \<open>
  C1. A delivery with a null message pointer returns at once: the object is as it was, so
  \<open>messages_received_\<close> is not incremented, and no call is added, so \<open>processMessage\<close> is
  not invoked (nor is \<open>setStatus\<close>).
\<close>

theorem incomingMessage_null:
  "incomingMessage None s = s
   \<and> messages_received (incomingMessage None s) = messages_received s
   \<and> handled (calls (incomingMessage None s)) = handled (calls s)"
  by (simp add: incomingMessage_def)

text \<open>
  C2. A delivery with a non-null pointer adds one to \<open>messages_received_\<close> (the addition of
  \<open>uint32_t\<close>) and hands exactly that message to \<open>processMessage\<close>, once, after the status
  line with the new count has been set.
\<close>

theorem incomingMessage_delivers:
  "messages_received (incomingMessage (Some m) s) = messages_received s + 1
   \<and> handled (calls (incomingMessage (Some m) s)) = handled (calls s) @ [m]
   \<and> calls (incomingMessage (Some m) s) =
       calls s @ [SetStatus Ok ''Topic''
                    (number (unat (messages_received s + 1)) @ '' messages received''),
                  ProcessMessage m]"
  by (simp add: incomingMessage_def setStatus_def called_def Let_def handled_append)
     (simp add: handled_def)

section \<open>Enabling, disabling, and changes of topic and frame\<close>

text \<open>
  C3. On an initialised display that \<open>isEnabled()\<close> reports enabled, \<open>onEnable\<close> makes
  exactly one call on the subscriber, a \<open>subscribe\<close> on the configured topic with the
  configured transport, and the subscription is held when that call returns. \<open>onDisable\<close>
  (whatever the enabled flag then says) makes exactly one further call on the subscriber,
  \<open>unsubscribe\<close>, after which no subscription is held and \<open>messages_received_\<close> is 0.
\<close>

theorem onEnable_onDisable:
  assumes "enabled s" and "tf_filter s = Some f"
  shows "\<exists>s1 s2.
           onEnable outcome s = Inr s1
         \<and> sub_calls (calls s1) =
             sub_calls (calls s) @ [Sub_subscribe (topic s) 10 (transport_hint s)]
         \<and> sub s1 = (case outcome of None \<Rightarrow> Some (topic s, transport_hint s)
                                    | Some what \<Rightarrow> None)
         \<and> onDisable (s1\<lparr>enabled := e\<rparr>) = Inr s2
         \<and> sub_calls (calls s2) = sub_calls (calls s1) @ [Sub_unsubscribe]
         \<and> sub s2 = None
         \<and> messages_received s2 = 0"
proof (cases outcome)
  case None
  with assms show ?thesis
    by (simp add: onEnable_def onDisable_def subscribe_ok reset_Some unsubscribe_fields
                  sub_calls_append sub_calls_simps)
next
  case (Some what)
  with assms show ?thesis
    by (simp add: onEnable_def onDisable_def subscribe_throws reset_Some unsubscribe_fields
                  sub_calls_append sub_calls_simps)
qed

theorem onEnable_onDisable_witness:
  "enabled scan_display
   \<and> tf_filter scan_display = Some \<lparr>target_frame = ''map'', queue_size = 10, buffered = []\<rparr>
   \<and> (\<exists>s1 s2.
         onEnable None scan_display = Inr s1
       \<and> sub_calls (calls s1) = [Sub_subscribe ''/scan'' 10 Reliable]
       \<and> sub s1 = Some (''/scan'', Reliable)
       \<and> onDisable (s1\<lparr>enabled := False\<rparr>) = Inr s2
       \<and> sub_calls (calls s2) = [Sub_subscribe ''/scan'' 10 Reliable, Sub_unsubscribe]
       \<and> sub s2 = None
       \<and> messages_received s2 = 0)"
proof -
  have e: "enabled scan_display"
    by (simp add: scan_display_fields)
  have f: "tf_filter scan_display =
             Some \<lparr>target_frame = ''map'', queue_size = 10, buffered = []\<rparr>"
    by (simp add: scan_display_fields)
  from onEnable_onDisable [where outcome = None and e = False, OF e f] obtain s1 s2 where
    "onEnable None scan_display = Inr s1"
    "sub_calls (calls s1) = [Sub_subscribe ''/scan'' 10 Reliable]"
    "sub s1 = Some (''/scan'', Reliable)"
    "onDisable (s1\<lparr>enabled := False\<rparr>) = Inr s2"
    "sub_calls (calls s2) = sub_calls (calls s1) @ [Sub_unsubscribe]"
    "sub s2 = None"
    "messages_received s2 = 0"
    by (auto simp: scan_display_fields transport_hint_def sub_calls_simps)
  with e f show ?thesis by simp
qed

text \<open>
  C4. On an enabled, initialised display, a change of the topic (\<open>setTopic\<close> with a topic
  other than the configured one) runs \<open>updateTopic\<close> once through the slot: the calls on
  the subscriber are exactly one \<open>unsubscribe\<close>, then one \<open>subscribe\<close> on the new topic,
  and that subscription is held when the call returns. A change of the reliability setting
  does the same on the configured topic with the new transport, and so does \<open>updateTopic\<close>
  called on its own, on the topic and transport then configured.
\<close>

theorem updateTopic_resubscribes:
  assumes "enabled s" and "tf_filter s = Some f" and "t \<noteq> topic s" and "u \<noteq> unreliable s"
  shows "(\<exists>s1.
            setTopic outcome t dtype s = Inr s1
          \<and> topic s1 = t
          \<and> sub_calls (calls s1) =
              sub_calls (calls s) @ [Sub_unsubscribe, Sub_subscribe t 10 (transport_hint s)]
          \<and> sub s1 = (case outcome of None \<Rightarrow> Some (t, transport_hint s)
                                     | Some what \<Rightarrow> None))
       \<and> (\<exists>s2.
            unreliable_property_setBool outcome u s = Inr s2
          \<and> unreliable s2 = u
          \<and> sub_calls (calls s2) =
              sub_calls (calls s)
                @ [Sub_unsubscribe,
                   Sub_subscribe (topic s) 10 (if u then Unreliable else Reliable)]
          \<and> sub s2 = (case outcome of
                         None \<Rightarrow> Some (topic s, if u then Unreliable else Reliable)
                       | Some what \<Rightarrow> None))
       \<and> (\<exists>s3.
            updateTopic outcome s = Inr s3
          \<and> sub_calls (calls s3) =
              sub_calls (calls s)
                @ [Sub_unsubscribe, Sub_subscribe (topic s) 10 (transport_hint s)]
          \<and> sub s3 = (case outcome of None \<Rightarrow> Some (topic s, transport_hint s)
                                     | Some what \<Rightarrow> None))"
proof (cases outcome)
  case None
  with assms show ?thesis
    by (simp add: setTopic_def topic_property_setString_def unreliable_property_setBool_def
                  updateTopic_def and_then_def reset_Some unsubscribe_fields
                  subscribe_ok transport_hint_def called_def sub_calls_append sub_calls_simps)
next
  case (Some what)
  with assms show ?thesis
    by (simp add: setTopic_def topic_property_setString_def unreliable_property_setBool_def
                  updateTopic_def and_then_def reset_Some unsubscribe_fields
                  subscribe_throws transport_hint_def called_def sub_calls_append
                  sub_calls_simps)
qed

theorem updateTopic_resubscribes_witness:
  "enabled busy_display
   \<and> tf_filter busy_display =
       Some \<lparr>target_frame = ''map'', queue_size = 10, buffered = [3, 4]\<rparr>
   \<and> ''/cloud'' \<noteq> topic busy_display
   \<and> True \<noteq> unreliable busy_display
   \<and> (\<exists>s1.
         setTopic None ''/cloud'' [] busy_display = Inr s1
       \<and> topic s1 = ''/cloud''
       \<and> sub_calls (calls s1) = [Sub_unsubscribe, Sub_subscribe ''/cloud'' 10 Reliable]
       \<and> sub s1 = Some (''/cloud'', Reliable))
   \<and> (\<exists>s2.
         unreliable_property_setBool None True busy_display = Inr s2
       \<and> unreliable s2 = True
       \<and> sub_calls (calls s2) = [Sub_unsubscribe, Sub_subscribe ''/scan'' 10 Unreliable]
       \<and> sub s2 = Some (''/scan'', Unreliable))
   \<and> (\<exists>s3.
         updateTopic None busy_display = Inr s3
       \<and> sub_calls (calls s3) = [Sub_unsubscribe, Sub_subscribe ''/scan'' 10 Reliable]
       \<and> sub s3 = Some (''/scan'', Reliable))"
proof -
  have e: "enabled busy_display"
    by (simp add: busy_display_def scan_display_fields)
  have f: "tf_filter busy_display =
             Some \<lparr>target_frame = ''map'', queue_size = 10, buffered = [3, 4]\<rparr>"
    by (simp add: busy_display_def)
  have t: "''/cloud'' \<noteq> topic busy_display"
    by (simp add: busy_display_def scan_display_fields)
  have u: "True \<noteq> unreliable busy_display"
    by (simp add: busy_display_def scan_display_fields)
  have c: "sub_calls (calls busy_display) = []" "topic busy_display = ''/scan''"
    "transport_hint busy_display = Reliable"
    by (simp_all add: busy_display_def scan_display_fields sub_calls_simps transport_hint_def)
  from updateTopic_resubscribes [where outcome = None and dtype = "[]", OF e f t u]
       e f t u c
  show ?thesis by simp
qed

text \<open>
  C5. On an initialised display, \<open>fixedFrameChanged\<close> gives the filter the new target frame,
  empties the filter's buffer and sets \<open>messages_received_\<close> to 0. It makes no call on the
  subscriber, and the subscription held is the one held before.
\<close>

theorem fixedFrameChanged_keeps_subscription:
  assumes "tf_filter s = Some f"
  shows "\<exists>s'.
           fixedFrameChanged s = Inr s'
         \<and> tf_filter s' = Some (f\<lparr>target_frame := fixed_frame s, buffered := []\<rparr>)
         \<and> messages_received s' = 0
         \<and> sub s' = sub s
         \<and> sub_calls (calls s') = sub_calls (calls s)
         \<and> calls s' = calls s @ [Filter_setTargetFrame (fixed_frame s), Display_reset,
                                   Filter_clear]"
  using assms
  by (simp add: fixedFrameChanged_def reset_Some called_def sub_calls_append sub_calls_simps)

theorem fixedFrameChanged_keeps_subscription_witness:
  "tf_filter (busy_display\<lparr>fixed_frame := ''odom''\<rparr>) =
     Some \<lparr>target_frame = ''map'', queue_size = 10, buffered = [3, 4]\<rparr>
   \<and> (\<exists>s'.
         fixedFrameChanged (busy_display\<lparr>fixed_frame := ''odom''\<rparr>) = Inr s'
       \<and> tf_filter s' = Some \<lparr>target_frame = ''odom'', queue_size = 10, buffered = []\<rparr>
       \<and> messages_received s' = 0
       \<and> sub s' = Some (''/scan'', Reliable))"
proof -
  have f: "tf_filter (busy_display\<lparr>fixed_frame := ''odom''\<rparr>) =
             Some \<lparr>target_frame = ''map'', queue_size = 10, buffered = [3, 4]\<rparr>"
    by (simp add: busy_display_def)
  have s: "sub (busy_display\<lparr>fixed_frame := ''odom''\<rparr>) = Some (''/scan'', Reliable)"
    by (simp add: busy_display_def)
  from fixedFrameChanged_keeps_subscription [OF f] f s
  show ?thesis by auto
qed

section \<open>Subscribing\<close>

text \<open>
  C6. \<open>subscribe\<close> always returns to its caller. On an enabled display, when
  \<open>sub_.subscribe\<close> throws a \<open>ros::Exception\<close>, the only thing that follows is one
  \<open>setStatus\<close> call with level \<open>Error\<close>, name \<open>Topic\<close> and the text
  \<open>Error subscribing: \<close> followed by the exception's text; when it returns, the one
  \<open>setStatus\<close> call has level \<open>Ok\<close>.
\<close>

theorem subscribe_catches:
  "(\<exists>s'. subscribe outcome s = Inr s')
   \<and> (\<exists>s1. subscribe (Some what) (s\<lparr>enabled := True\<rparr>) = Inr s1
           \<and> calls s1 = calls s @ [Sub_subscribe (topic s) 10 (transport_hint s),
                                    SetStatus Error ''Topic''
                                      (''Error subscribing: '' @ what)])
   \<and> (\<exists>s2. subscribe None (s\<lparr>enabled := True\<rparr>) = Inr s2
           \<and> calls s2 = calls s @ [Sub_subscribe (topic s) 10 (transport_hint s),
                                    SetStatus Ok ''Topic'' ''OK''])"
proof -
  obtain s' where "subscribe outcome s = Inr s'"
    using subscribe_returns by blast
  then show ?thesis
    by (simp add: subscribe_ok subscribe_throws transport_hint_def)
qed

text \<open>
  C9. While the display is not enabled, \<open>subscribe\<close> returns the object as it was: no call
  on the subscriber, no status, no member changed.
\<close>

theorem subscribe_not_enabled:
  "\<not> enabled s \<Longrightarrow> subscribe outcome s = Inr s"
  by (simp add: subscribe_def)

theorem subscribe_not_enabled_witness:
  "\<not> enabled (scan_display\<lparr>enabled := False\<rparr>)
   \<and> subscribe None (scan_display\<lparr>enabled := False\<rparr>) = Inr (scan_display\<lparr>enabled := False\<rparr>)"
proof -
  have d: "\<not> enabled (scan_display\<lparr>enabled := False\<rparr>)"
    by simp
  from subscribe_not_enabled [where outcome = None, OF d] d show ?thesis by simp
qed

text \<open>
  C10. On an initialised display, every \<open>updateTopic\<close> empties the filter's buffer and
  leaves \<open>messages_received_\<close> at 0. Its calls are \<open>unsubscribe\<close>, \<open>Display::reset\<close>,
  the filter's \<open>clear\<close>, then the calls of \<open>subscribe\<close> (one \<open>sub_.subscribe\<close> when the
  display is enabled, none when it is not), then \<open>queueRender\<close>.
\<close>

theorem updateTopic_resets:
  assumes "tf_filter s = Some f"
  shows "\<exists>s' cs.
           updateTopic outcome s = Inr s'
         \<and> tf_filter s' = Some (f\<lparr>buffered := []\<rparr>)
         \<and> messages_received s' = 0
         \<and> calls s' = calls s @ [Sub_unsubscribe, Display_reset, Filter_clear] @ cs
                         @ [QueueRender]
         \<and> sub_calls cs =
             (if enabled s then [Sub_subscribe (topic s) 10 (transport_hint s)] else [])"
proof (cases "enabled s")
  case False
  with assms show ?thesis
    by (simp add: updateTopic_def and_then_def reset_Some unsubscribe_fields
                  subscribe_disabled called_def sub_calls_simps)
next
  case True
  show ?thesis
  proof (cases outcome)
    case None
    with True assms show ?thesis
      by (simp add: updateTopic_def and_then_def reset_Some unsubscribe_fields
                    subscribe_ok transport_hint_def called_def sub_calls_simps)
  next
    case (Some what)
    with True assms show ?thesis
      by (simp add: updateTopic_def and_then_def reset_Some unsubscribe_fields
                    subscribe_throws transport_hint_def called_def sub_calls_simps)
  qed
qed

theorem updateTopic_resets_witness:
  "tf_filter busy_display = Some \<lparr>target_frame = ''map'', queue_size = 10, buffered = [3, 4]\<rparr>
   \<and> (\<exists>s' cs.
         updateTopic None busy_display = Inr s'
       \<and> tf_filter s' = Some \<lparr>target_frame = ''map'', queue_size = 10, buffered = []\<rparr>
       \<and> messages_received s' = 0
       \<and> calls s' = calls busy_display @ [Sub_unsubscribe, Display_reset, Filter_clear] @ cs
                       @ [QueueRender]
       \<and> sub_calls cs = [Sub_subscribe ''/scan'' 10 Reliable])"
proof -
  have f: "tf_filter busy_display =
             Some \<lparr>target_frame = ''map'', queue_size = 10, buffered = [3, 4]\<rparr>"
    by (simp add: busy_display_def)
  have e: "enabled busy_display" "topic busy_display = ''/scan''"
    "transport_hint busy_display = Reliable"
    by (simp_all add: busy_display_def scan_display_fields transport_hint_def)
  from updateTopic_resets [where outcome = None, OF f] f e show ?thesis by simp
qed

section \<open>The filter and the subscription over the life of a display\<close>

lemma updateTopic_keeps_filter:
  assumes "tf_filter s \<noteq> None"
  shows "\<exists>s'. updateTopic outcome s = Inr s' \<and> tf_filter s' \<noteq> None"
proof -
  from assms obtain f where f: "tf_filter s = Some f" by auto
  obtain s1 where s1: "reset (unsubscribe s) = Inr s1" "tf_filter s1 \<noteq> None"
    using f by (simp add: reset_Some unsubscribe_fields)
  obtain s2 where s2: "subscribe outcome s1 = Inr s2" "tf_filter s2 = tf_filter s1"
    using subscribe_returns [of outcome s1] by blast
  with s1 show ?thesis
    by (simp add: updateTopic_def and_then_def called_def)
qed

lemma invoke_keeps_filter:
  assumes "tf_filter s \<noteq> None"
  shows "\<exists>s'. invoke h s = Inr s' \<and> tf_filter s' \<noteq> None"
proof -
  from assms obtain f where f: "tf_filter s = Some f" by auto
  show ?thesis
  proof (cases h)
    case (OnEnable outcome)
    with f subscribe_returns [of outcome s] show ?thesis
      by (auto simp: onEnable_def)
  next
    case OnDisable
    with f show ?thesis
      by (simp add: onDisable_def reset_Some unsubscribe_fields)
  next
    case (UpdateTopic outcome)
    with updateTopic_keeps_filter [OF assms, of outcome] show ?thesis
      by simp
  next
    case FixedFrameChanged
    with f show ?thesis
      by (simp add: fixedFrameChanged_def reset_Some called_def)
  next
    case (IncomingMessage msg)
    with f show ?thesis
      by (cases msg) (simp_all add: incomingMessage_def setStatus_def called_def Let_def)
  next
    case Reset
    with f show ?thesis
      by (simp add: reset_Some)
  next
    case (Subscribe outcome)
    with f subscribe_returns [of outcome s] show ?thesis
      by auto
  next
    case Unsubscribe
    with f show ?thesis
      by (simp add: unsubscribe_fields)
  next
    case (SetTopic t dtype outcome)
    have "tf_filter (s\<lparr>topic := t\<rparr>) \<noteq> None"
      using assms by simp
    from updateTopic_keeps_filter [OF this, of outcome] SetTopic assms show ?thesis
      by (cases "t = topic s") (simp_all add: setTopic_def topic_property_setString_def)
  next
    case (SetUnreliable b outcome)
    have "tf_filter (s\<lparr>unreliable := b\<rparr>) \<noteq> None"
      using assms by simp
    from updateTopic_keeps_filter [OF this, of outcome] SetUnreliable assms show ?thesis
      by (cases "b = unreliable s") (simp_all add: unreliable_property_setBool_def)
  next
    case (SetEnabled b)
    with f show ?thesis by simp
  next
    case (SetFixedFrame frame)
    with f show ?thesis by simp
  qed
qed

lemma run_keeps_filter:
  "tf_filter s \<noteq> None \<Longrightarrow> \<exists>s'. run hs s = Inr s' \<and> tf_filter s' \<noteq> None"
proof (induction hs arbitrary: s)
  case Nil
  then show ?case by simp
next
  case (Cons h hs)
  from invoke_keeps_filter [OF Cons.prems, of h]
  obtain s1 where s1: "invoke h s = Inr s1" "tf_filter s1 \<noteq> None" by blast
  from Cons.IH [OF s1(2)] s1(1) show ?case
    by (simp add: and_then_def)
qed

text \<open>
  C7, as claimed: in every state reached through the lifecycle, the filter and the
  subscription are both there or both gone. The first such state already has one without
  the other: after the constructor and \<open>onInitialize\<close> the filter exists and no
  subscription is held, since only \<open>subscribe\<close> on an enabled display opens one.
\<close>

theorem filter_without_subscription:
  "\<not> both_or_neither
       (onInitialize (MessageFilterDisplay False ''map'' ''sensor_msgs/LaserScan'' :: nat display))"
  by (simp add: both_or_neither_def onInitialize_fields MessageFilterDisplay_def)

text \<open>
  C7, amended: after \<open>onInitialize\<close>, any sequence of enabling, disabling, topic and
  reliability changes, frame changes, deliveries and resets runs to its end, and the filter
  exists in the state it reaches, whether a subscription is held or not. Only the destructor
  removes the filter, and it leaves no subscription either.
\<close>

theorem filter_lives_until_destroyed:
  "\<exists>s'. run hs (onInitialize s) = Inr s'
        \<and> tf_filter s' \<noteq> None
        \<and> tf_filter (destroy s') = None
        \<and> sub (destroy s') = None
        \<and> both_or_neither (destroy s')"
  using run_keeps_filter [of "onInitialize s" hs]
  by (simp add: onInitialize_fields destroy_fields both_or_neither_def)

section \<open>The count of delivered messages\<close>

lemma invoke_count:
  assumes "\<not> resets h" and "invoke h s = Inr s'"
  shows "messages_received s' = messages_received s + of_nat (deliveries [h])"
proof (cases h)
  case (OnEnable outcome)
  with assms(2) subscribe_returns [of outcome s] show ?thesis
    by (auto simp: onEnable_def)
next
  case (IncomingMessage msg)
  with assms(2) show ?thesis
    by (cases msg) (auto simp: incomingMessage_def setStatus_def called_def Let_def)
next
  case (Subscribe outcome)
  with assms(2) subscribe_returns [of outcome s] show ?thesis
    by auto
next
  case Unsubscribe
  with assms(2) show ?thesis
    by (auto simp: unsubscribe_fields)
qed (use assms in auto)

lemma deliveries_Cons: "deliveries (h # hs) = deliveries [h] + deliveries hs"
proof (cases h)
  case (IncomingMessage msg)
  then show ?thesis by (cases msg) simp_all
qed simp_all

lemma run_count:
  "list_all (\<lambda>h. \<not> resets h) hs \<Longrightarrow> run hs s = Inr s' \<Longrightarrow>
   messages_received s' = messages_received s + of_nat (deliveries hs)"
proof (induction hs arbitrary: s)
  case Nil
  then show ?case by simp
next
  case (Cons h hs)
  from Cons.prems obtain s1 where s1: "invoke h s = Inr s1" "run hs s1 = Inr s'"
    by (auto simp: and_then_def split: sum.splits)
  from Cons.prems have nr: "\<not> resets h" "list_all (\<lambda>h. \<not> resets h) hs"
    by simp_all
  have "messages_received s1 = messages_received s + of_nat (deliveries [h])"
    using invoke_count [OF nr(1) s1(1)] .
  moreover have "messages_received s' = messages_received s1 + of_nat (deliveries hs)"
    using Cons.IH [OF nr(2) s1(2)] .
  ultimately show ?case
    by (simp add: deliveries_Cons [of h hs])
qed

lemma setTopic_resets_count:
  "\<exists>s'. run [IncomingMessage (Some 5), SetTopic ''/cloud'' [] None, IncomingMessage (Some 6)]
             busy_display = Inr s'
        \<and> messages_received s' = 1
        \<and> sub s' = Some (''/cloud'', Reliable)"
  by (simp add: and_then_def incomingMessage_def setStatus_def called_def Let_def
                setTopic_def topic_property_setString_def updateTopic_def reset_def
                unsubscribe_def sub_unsubscribe_def subscribe_def sub_subscribe_def
                transport_hint_def busy_display_def scan_display_fields)

text \<open>
  C8, as claimed: every delivery of a non-null message strictly increases
  \<open>messages_received_\<close>. The member is a \<open>uint32_t\<close>: at \<open>4294967295\<close> the increment
  wraps to 0, and the count after the delivery is not above the count before it.
\<close>

theorem count_wraps:
  "\<not> messages_received (scan_display\<lparr>messages_received := 4294967295\<rparr>)
      < messages_received
          (incomingMessage (Some 1) (scan_display\<lparr>messages_received := 4294967295\<rparr>))"
  by (simp add: incomingMessage_def setStatus_def called_def Let_def)

text \<open>
  C8, amended: over a sequence of steps none of which can reset (no \<open>onDisable\<close>,
  \<open>updateTopic\<close>, \<open>fixedFrameChanged\<close> or \<open>reset\<close>, and no write of the topic or
  reliability property, which runs \<open>updateTopic\<close>), the count at the end is the count at
  the start plus the number of non-null deliveries, as long as that sum is below
  \<open>2 ^ 32\<close>. So up to that bound each non-null delivery raises the count by one and no
  other step changes it.
\<close>

theorem count_between_resets:
  assumes "list_all (\<lambda>h. \<not> resets h) hs"
    and "run hs s = Inr s'"
    and "unat (messages_received s) + deliveries hs < 2 ^ 32"
  shows "unat (messages_received s') = unat (messages_received s) + deliveries hs"
proof -
  have "messages_received s' = messages_received s + of_nat (deliveries hs)"
    using run_count [OF assms(1) assms(2)] .
  then have "unat (messages_received s') =
             (unat (messages_received s) + deliveries hs) mod 2 ^ 32"
    by (simp add: unat_word_ariths unat_of_nat mod_add_right_eq)
  with assms(3) show ?thesis by simp
qed

theorem count_between_resets_witness:
  "list_all (\<lambda>h. \<not> resets h) [IncomingMessage (Some 5), IncomingMessage None, OnEnable None,
                               IncomingMessage (Some 6)]
   \<and> (\<exists>s'. run [IncomingMessage (Some 5), IncomingMessage None, OnEnable None,
                 IncomingMessage (Some 6)] busy_display = Inr s'
          \<and> unat (messages_received s') = 9)"
proof -
  let ?hs = "[IncomingMessage (Some 5), IncomingMessage None, OnEnable None,
              IncomingMessage (Some (6::nat))]"
  have a: "list_all (\<lambda>h. \<not> resets h) ?hs"
    by simp
  obtain s' where r: "run ?hs busy_display = Inr s'"
    using subscribe_returns [of None "incomingMessage None (incomingMessage (Some 5) busy_display)"]
    by (auto simp: and_then_def onEnable_def)
  have b: "unat (messages_received busy_display) + deliveries ?hs < 2 ^ 32"
    by (simp add: busy_display_def)
  from count_between_resets [OF a r b] have "unat (messages_received s') = 9"
    by (simp add: busy_display_def)
  with a r show ?thesis by simp
qed

end
